theory Spec2Isabelle
  imports Complex_Main "HOL-Library.Sublist" "HOL-Library.Multiset"
begin

section \<open>JavaScript values\<close>

text \<open>
  The dashboard component and the token endpoint are JavaScript/TypeScript, so the
  embedding starts with the values the code computes on.

  A Number is \<open>NaN\<close>, one of the two infinities, or a finite value. A finite double is
  modelled by the real number it denotes: rounding, overflow to infinity and the sign of
  zero are outside the model. Everything the code decides on numbers below (truthiness,
  comparisons that fail on \<open>NaN\<close>, the coercion \<open>x || 0\<close>) is kept.

  A row value is what the two parsers can put into a cell: a string, a number, a boolean,
  \<open>null\<close>, or \<open>undefined\<close> for a key the row does not have (the array Papa Parse stores
  under \<open>__parsed_extra\<close> for a line with surplus fields is not modelled). \<open>JProto p\<close> is the value a plain
  object inherits from \<open>Object.prototype\<close> under the name \<open>p\<close>: a built-in function for
  every name but \<open>__proto__\<close>, whose getter returns \<open>Object.prototype\<close> itself.

  Strings are byte lists; case conversion and white space are modelled on ASCII.
\<close>

datatype jsnum = NaN | PosInf | NegInf | Fin real

datatype jsval = JUndefined | JNull | JBool bool | JNum jsnum | JStr string | JProto string

text \<open>ToBoolean.\<close>

fun truthy :: "jsval \<Rightarrow> bool" where
  "truthy JUndefined = False"
| "truthy JNull = False"
| "truthy (JBool b) = b"
| "truthy (JNum n) = (n \<noteq> NaN \<and> n \<noteq> Fin 0)"
| "truthy (JStr s) = (s \<noteq> [])"
| "truthy (JProto p) = True"

text \<open>\<open>a || b\<close> on values.\<close>

definition js_or :: "jsval \<Rightarrow> jsval \<Rightarrow> jsval" where
  "js_or a b = (if truthy a then a else b)"

text \<open>Number addition, division and the comparisons \<open><=\<close> and \<open>>=\<close>.\<close>

fun js_add :: "jsnum \<Rightarrow> jsnum \<Rightarrow> jsnum" where
  "js_add NaN y = NaN"
| "js_add x NaN = NaN"
| "js_add (Fin a) (Fin b) = Fin (a + b)"
| "js_add PosInf NegInf = NaN"
| "js_add NegInf PosInf = NaN"
| "js_add PosInf y = PosInf"
| "js_add NegInf y = NegInf"
| "js_add (Fin a) y = y"

fun js_div :: "jsnum \<Rightarrow> jsnum \<Rightarrow> jsnum" where
  "js_div NaN y = NaN"
| "js_div x NaN = NaN"
| "js_div (Fin a) (Fin b) =
     (if b = 0 then (if a = 0 then NaN else if 0 < a then PosInf else NegInf)
      else Fin (a / b))"
| "js_div (Fin a) y = Fin 0"
| "js_div PosInf (Fin b) = (if 0 \<le> b then PosInf else NegInf)"
| "js_div NegInf (Fin b) = (if 0 \<le> b then NegInf else PosInf)"
| "js_div x y = NaN"

fun js_le :: "jsnum \<Rightarrow> jsnum \<Rightarrow> bool" where
  "js_le NaN y = False"
| "js_le x NaN = False"
| "js_le (Fin a) (Fin b) = (a \<le> b)"
| "js_le NegInf y = True"
| "js_le x PosInf = True"
| "js_le x y = False"

definition js_ge :: "jsnum \<Rightarrow> jsnum \<Rightarrow> bool" where
  "js_ge x y = js_le y x"

subsection \<open>Strings\<close>

definition toLowerCase :: "string \<Rightarrow> string" where
  "toLowerCase s =
     map (\<lambda>c. if 65 \<le> (of_char c :: nat) \<and> (of_char c :: nat) \<le> 90
              then char_of (of_char c + 32 :: nat) else c) s"

text \<open>\<open>s.includes(sub)\<close>: \<open>sub\<close> occurs in \<open>s\<close> as a contiguous run.\<close>

definition includes_str :: "string \<Rightarrow> string \<Rightarrow> bool" where
  "includes_str s sub = sublist sub s"

subsection \<open>\<open>parseFloat\<close>\<close>

text \<open>
  \<open>parseFloat\<close> skips leading white space and reads the longest prefix that is a decimal
  literal: an optional sign, then \<open>Infinity\<close>, or digits with an optional fraction and an
  optional exponent. With no such prefix the result is \<open>NaN\<close>. An argument that is not a
  string is converted to a string first, so a number comes back as itself and
  \<open>true\<close>, \<open>null\<close>, \<open>undefined\<close> and functions give \<open>NaN\<close>.
\<close>

definition isWhiteSpace :: "char \<Rightarrow> bool" where
  "isWhiteSpace c = (of_char c \<in> {9, 10, 11, 12, 13, 32 :: nat})"

definition isDigit :: "char \<Rightarrow> bool" where
  "isDigit c = (48 \<le> (of_char c :: nat) \<and> (of_char c :: nat) \<le> 57)"

definition digitsValue :: "string \<Rightarrow> nat" where
  "digitsValue ds = foldl (\<lambda>a c. 10 * a + (of_char c - 48)) 0 ds"

definition stripSign :: "string \<Rightarrow> bool \<times> string" where
  "stripSign s = (case s of
       c # r \<Rightarrow> if c = CHR ''-'' then (True, r) else if c = CHR ''+'' then (False, r) else (False, s)
     | [] \<Rightarrow> (False, s))"

definition exponentPart :: "string \<Rightarrow> int" where
  "exponentPart s = (case s of
       c # r \<Rightarrow>
         if c = CHR ''e'' \<or> c = CHR ''E'' then
           (let (neg, r') = stripSign r; ds = takeWhile isDigit r'
            in if ds = [] then 0
               else if neg then - int (digitsValue ds) else int (digitsValue ds))
         else 0
     | [] \<Rightarrow> 0)"

definition scale10 :: "real \<Rightarrow> int \<Rightarrow> real" where
  "scale10 x e = (if 0 \<le> e then x * 10 ^ nat e else x / 10 ^ nat (- e))"

definition parseFloat_str :: "string \<Rightarrow> jsnum" where
  "parseFloat_str s =
     (let (neg, u) = stripSign (dropWhile isWhiteSpace s) in
      if prefix ''Infinity'' u then (if neg then NegInf else PosInf)
      else
        let ip = takeWhile isDigit u;
            r1 = dropWhile isDigit u;
            fp = (case r1 of c # r \<Rightarrow> if c = CHR ''.'' then takeWhile isDigit r else []
                  | [] \<Rightarrow> []);
            r2 = (case r1 of c # r \<Rightarrow> if c = CHR ''.'' then dropWhile isDigit r else r1
                  | [] \<Rightarrow> [])
        in if ip = [] \<and> fp = [] then NaN
           else
             let m = real (digitsValue ip) + real (digitsValue fp) / 10 ^ length fp;
                 v = scale10 m (exponentPart r2)
             in Fin (if neg then - v else v))"

fun parseFloat :: "jsval \<Rightarrow> jsnum" where
  "parseFloat (JStr s) = parseFloat_str s"
| "parseFloat (JNum n) = n"
| "parseFloat v = NaN"

text \<open>\<open>n || 0\<close> on a number: \<open>NaN\<close> and zero give \<open>0\<close>.\<close>

definition or_zero :: "jsnum \<Rightarrow> jsnum" where
  "or_zero n = (if truthy (JNum n) then n else Fin 0)"

subsection \<open>What the engine decides\<close>

text \<open>
  Three conversions are left to the JavaScript engine and are parameters of the model:
  \<open>Date.parse\<close> (the time value of a date string in milliseconds, \<open>NaN\<close> for a string the
  engine does not recognise; formats beyond ISO 8601 are implementation-defined), the
  decimal text of a Number, and the source text of a built-in function.
\<close>

record engine =
  Date_parse :: "string \<Rightarrow> jsnum"
  Number_toString :: "jsnum \<Rightarrow> string"
  Function_toString :: "string \<Rightarrow> string"

text \<open>\<open>String(value)\<close>, also the conversion of a value to a property key.\<close>

fun js_String :: "engine \<Rightarrow> jsval \<Rightarrow> string" where
  "js_String eng JUndefined = ''undefined''"
| "js_String eng JNull = ''null''"
| "js_String eng (JBool b) = (if b then ''true'' else ''false'')"
| "js_String eng (JNum n) = Number_toString eng n"
| "js_String eng (JStr s) = s"
| "js_String eng (JProto p) =
     (if p = ''__proto__'' then ''[object Object]'' else Function_toString eng p)"

subsection \<open>Rows\<close>

text \<open>
  A row is a plain object: its own properties in the order \<open>Object.keys\<close> and
  \<open>Object.values\<close> enumerate them. Reading a key the row does not own falls through to
  \<open>Object.prototype\<close>.
\<close>

type_synonym row = "(string \<times> jsval) list"

definition protoNames :: "string list" where
  "protoNames =
     [''constructor'', ''__defineGetter__'', ''__defineSetter__'', ''hasOwnProperty'',
      ''__lookupGetter__'', ''__lookupSetter__'', ''isPrototypeOf'', ''propertyIsEnumerable'',
      ''toString'', ''valueOf'', ''__proto__'', ''toLocaleString'']"

definition js_get :: "(string \<times> jsval) list \<Rightarrow> string \<Rightarrow> jsval" where
  "js_get obj k =
     (case map_of obj k of
        Some v \<Rightarrow> v
      | None \<Rightarrow> if k \<in> set protoNames then JProto k else JUndefined)"

section \<open>The filter effect\<close>

text \<open>
  The effect at lines 94--135 of the component recomputes \<open>filteredData\<close> from \<open>rowData\<close>,
  \<open>filterText\<close>, \<open>dateRange\<close> and \<open>numericFilters\<close>: three stages of \<open>Array.filter\<close>, the
  numeric stage once per entry of \<open>numericFilters\<close>.
\<close>

record date_range =
  start :: string
  end' :: string

text \<open>
  One entry of \<open>numericFilters\<close>. The inputs write \<open>e.target.value\<close>, a string, into
  \<open>min\<close> or \<open>max\<close>; the bound that was never typed is \<open>undefined\<close> (\<open>None\<close>).
\<close>

record bounds =
  min' :: "string option"
  max' :: "string option"

definition textMatch :: "engine \<Rightarrow> string \<Rightarrow> row \<Rightarrow> bool" where
  "textMatch eng filterText r =
     list_ex (\<lambda>v. includes_str (toLowerCase (js_String eng v)) (toLowerCase filterText))
       (map snd r)"

text \<open>\<open>TimeClip\<close>, and \<open>new Date(value)\<close> as the time value of the date it builds.\<close>

definition timeClip :: "jsnum \<Rightarrow> jsnum" where
  "timeClip n =
     (case n of
        Fin x \<Rightarrow>
          if 8640000000000000 < \<bar>x\<bar> then NaN
          else Fin (of_int (if 0 \<le> x then \<lfloor>x\<rfloor> else \<lceil>x\<rceil>))
      | _ \<Rightarrow> NaN)"

fun newDate :: "engine \<Rightarrow> jsval \<Rightarrow> jsnum" where
  "newDate eng (JStr s) = Date_parse eng s"
| "newDate eng (JProto p) = Date_parse eng (js_String eng (JProto p))"
| "newDate eng (JNum n) = timeClip n"
| "newDate eng (JBool b) = Fin (if b then 1 else 0)"
| "newDate eng JNull = Fin 0"
| "newDate eng JUndefined = NaN"

definition dateStr :: "row \<Rightarrow> jsval" where
  "dateStr r = js_or (js_or (js_get r ''Date'') (js_get r ''date'')) JNull"

definition datePass :: "engine \<Rightarrow> date_range \<Rightarrow> row \<Rightarrow> bool" where
  "datePass eng dr r =
     (if \<not> truthy (dateStr r) then True
      else
        let date = newDate eng (dateStr r);
            startD = (if start dr \<noteq> [] then Some (newDate eng (JStr (start dr))) else None);
            endD = (if end' dr \<noteq> [] then Some (newDate eng (JStr (end' dr))) else None)
        in (case startD of None \<Rightarrow> True | Some s \<Rightarrow> js_ge date s) \<and>
           (case endD of None \<Rightarrow> True | Some e \<Rightarrow> js_le date e))"

text \<open>
  The numeric predicate of one entry, on the value \<open>row[field]\<close>: \<open>!min\<close> holds for
  \<open>undefined\<close> and for the empty string. The entries are taken in the order of
  \<open>Object.entries(numericFilters)\<close>.
\<close>

definition boundSet :: "string option \<Rightarrow> bool" where
  "boundSet b = (case b of None \<Rightarrow> False | Some s \<Rightarrow> s \<noteq> [])"

definition boundValue :: "string option \<Rightarrow> jsnum" where
  "boundValue b = (case b of None \<Rightarrow> NaN | Some s \<Rightarrow> parseFloat_str s)"

definition numericPass :: "bounds \<Rightarrow> jsval \<Rightarrow> bool" where
  "numericPass b v =
     (let val = parseFloat v
      in (if boundSet (min' b) then js_ge val (boundValue (min' b)) else True) \<and>
         (if boundSet (max' b) then js_le val (boundValue (max' b)) else True))"

text \<open>The guard \<open>min !== "" || max !== ""\<close> and the filter it protects.\<close>

definition numericStage :: "row list \<Rightarrow> string \<times> bounds \<Rightarrow> row list" where
  "numericStage result e =
     (if min' (snd e) \<noteq> Some [] \<or> max' (snd e) \<noteq> Some []
      then filter (\<lambda>r. numericPass (snd e) (js_get r (fst e))) result
      else result)"

definition textStage :: "engine \<Rightarrow> string \<Rightarrow> row list \<Rightarrow> row list" where
  "textStage eng filterText result =
     (if filterText \<noteq> [] then filter (textMatch eng filterText) result else result)"

definition dateStage :: "engine \<Rightarrow> date_range \<Rightarrow> row list \<Rightarrow> row list" where
  "dateStage eng dr result =
     (if start dr \<noteq> [] \<or> end' dr \<noteq> []
      then filter (datePass eng dr) result else result)"

definition filterEffect ::
    "engine \<Rightarrow> row list \<Rightarrow> string \<Rightarrow> date_range \<Rightarrow> (string \<times> bounds) list \<Rightarrow> row list" where
  "filterEffect eng rowData filterText dr numericFilters =
     foldl numericStage (dateStage eng dr (textStage eng filterText rowData)) numericFilters"

section \<open>KPIs\<close>

text \<open>
  A field descriptor as \<open>onFileUpload\<close> builds it. The summary of lines 200--215 is the
  empty object (\<open>None\<close>) for an empty \<open>filteredData\<close>; the KPI cards are rendered only when
  \<open>kpis.totalRows !== undefined\<close>.
\<close>

record coldef =
  headerName :: string
  field :: string
  filter_flag :: bool
  sortable :: bool

record kpi =
  totalRows :: nat
  totalSales :: jsnum
  avgSales :: jsnum

definition isSalesName :: "string \<Rightarrow> bool" where
  "isSalesName f =
     (includes_str (toLowerCase f) ''sales'' \<or> includes_str (toLowerCase f) ''revenue'')"

text \<open>\<open>columnDefs.find(...)?.field\<close>: \<open>None\<close> is \<open>undefined\<close>.\<close>

definition salesField :: "coldef list \<Rightarrow> string option" where
  "salesField cols = map_option field (find (\<lambda>col. isSalesName (field col)) cols)"

definition kpis :: "row list \<Rightarrow> coldef list \<Rightarrow> kpi option" where
  "kpis fd cols =
     (if length fd = 0 then None
      else
        let rows = length fd;
            sales =
              (case salesField cols of
                 None \<Rightarrow> Fin 0
               | Some f \<Rightarrow>
                   if f \<noteq> []
                   then foldl (\<lambda>sum r. js_add sum (or_zero (parseFloat (js_get r f)))) (Fin 0) fd
                   else Fin 0);
            avg = (if rows \<noteq> 0 then js_div sales (Fin (real rows)) else Fin 0)
        in Some \<lparr>totalRows = rows, totalSales = sales, avgSales = avg\<rparr>)"

section \<open>Chart data\<close>

text \<open>
  Lines 218--234 count the rows per value of the first key of the first row. The counter
  \<open>counts\<close> is a plain object, so it is modelled with what a plain object does: keys are
  strings, a read falls through to \<open>Object.prototype\<close>, a write to \<open>__proto__\<close> of a
  primitive is ignored by the setter, and \<open>Object.entries\<close> lists array-index keys first,
  in ascending order, then the other keys in creation order.
\<close>

record chart_entry =
  name :: string
  count :: jsval
  fill :: string

definition COLORS :: "string list" where
  "COLORS = [''#3B82F6'', ''#8B5CF6'', ''#06B6D4'', ''#10B981'', ''#F59E0B'', ''#EF4444'']"

text \<open>\<open>x + 1\<close>: numeric addition, or concatenation when \<open>x\<close> is a string or an object.\<close>

fun js_plus1 :: "engine \<Rightarrow> jsval \<Rightarrow> jsval" where
  "js_plus1 eng (JNum n) = JNum (js_add n (Fin 1))"
| "js_plus1 eng (JStr s) = JStr (s @ ''1'')"
| "js_plus1 eng (JProto p) = JStr (js_String eng (JProto p) @ ''1'')"
| "js_plus1 eng (JBool b) = JNum (Fin (if b then 2 else 1))"
| "js_plus1 eng JNull = JNum (Fin 1)"
| "js_plus1 eng JUndefined = JNum NaN"

text \<open>
  \<open>counts[key] = v\<close> for a number or string \<open>v\<close>, on the own properties in creation order.
\<close>

definition js_set :: "(string \<times> jsval) list \<Rightarrow> string \<Rightarrow> jsval \<Rightarrow> (string \<times> jsval) list" where
  "js_set obj k v =
     (if k = ''__proto__'' then obj
      else if k \<in> fst ` set obj
      then map (\<lambda>p. if fst p = k then (k, v) else p) obj
      else obj @ [(k, v)])"

definition isArrayIndex :: "string \<Rightarrow> bool" where
  "isArrayIndex k =
     (k \<noteq> [] \<and> list_all isDigit k \<and> (k = ''0'' \<or> hd k \<noteq> CHR ''0'') \<and>
      digitsValue k < 4294967295)"

definition ownEntries :: "(string \<times> jsval) list \<Rightarrow> (string \<times> jsval) list" where
  "ownEntries obj =
     sort_key (\<lambda>p. digitsValue (fst p)) (filter (\<lambda>p. isArrayIndex (fst p)) obj) @
     filter (\<lambda>p. \<not> isArrayIndex (fst p)) obj"

definition groupKey :: "engine \<Rightarrow> string \<Rightarrow> row \<Rightarrow> string" where
  "groupKey eng g r = js_String eng (js_or (js_get r g) (JStr ''Unknown''))"

definition countStep ::
    "engine \<Rightarrow> string \<Rightarrow> (string \<times> jsval) list \<Rightarrow> row \<Rightarrow> (string \<times> jsval) list" where
  "countStep eng g counts r =
     (let key = groupKey eng g r
      in js_set counts key (js_plus1 eng (js_or (js_get counts key) (JNum (Fin 0)))))"

text \<open>\<open>Object.keys(filteredData[0] || {})[0] || "Category"\<close>.\<close>

definition groupByField :: "row list \<Rightarrow> string" where
  "groupByField fd =
     (case fd of
        ((k, v) # r) # rest \<Rightarrow> if k \<noteq> [] then k else ''Category''
      | _ \<Rightarrow> ''Category'')"

definition chartData :: "engine \<Rightarrow> row list \<Rightarrow> chart_entry list" where
  "chartData eng fd =
     (if length fd = 0 then []
      else
        let counts = foldl (countStep eng (groupByField fd)) [] fd
        in map (\<lambda>(i, p). \<lparr>name = fst p, count = snd p, fill = COLORS ! (i mod length COLORS)\<rparr>)
             (enumerate 0 (ownEntries counts)))"

section \<open>Session state and file upload\<close>

text \<open>
  The component's state variables. \<open>onFileUpload\<close> (lines 138--180) is given the file's
  name and content; the two parsing libraries are parameters. Papa Parse hands
  \<open>results.data\<close> and \<open>results.meta.fields\<close> to the \<open>complete\<close> callback, or never calls it
  when the file cannot be read (\<open>None\<close>); \<open>meta_fields\<close> is \<open>None\<close> when no header was read,
  and \<open>.map\<close> on it throws after \<open>setRowData\<close> has run. The spreadsheet reader yields the
  rows of the first sheet, or throws (\<open>None\<close>). The handler's result is the state after the
  callback, and the alerts shown. Resetting the file input (\<open>event.target.value = null\<close>)
  changes no state variable.
\<close>

record pbi_config =
  pbi_id :: string
  embedUrl :: string
  accessToken :: string

record session =
  rowData :: "row list"
  columnDefs :: "coldef list"
  filteredData :: "row list"
  filterText :: string
  selectedColumn :: string
  numericFilters :: "(string \<times> bounds) list"
  dateRange :: date_range
  pbiEmbedConfig :: "pbi_config option"
  showPbi :: bool

record upload_file =
  file_name :: string
  content :: string

record papa_result =
  data :: "row list"
  meta_fields :: "string list option"

record libs =
  Papa_parse :: "string \<Rightarrow> papa_result option"
  XLSX_sheet_to_json :: "string \<Rightarrow> row list option"

fun split_on :: "char \<Rightarrow> string \<Rightarrow> string list" where
  "split_on d [] = [[]]"
| "split_on d (c # cs) =
     (if c = d then [] # split_on d cs
      else (case split_on d cs of x # xs \<Rightarrow> (c # x) # xs | [] \<Rightarrow> [[c]]))"

text \<open>
  \<open>file.name.split(".").pop().toLowerCase()\<close>: the text after the last dot in lower case,
  and the whole name when it has no dot.
\<close>

definition fileExtension :: "string \<Rightarrow> string" where
  "fileExtension n = toLowerCase (last (split_on (CHR ''.'') n))"

definition mkColumn :: "string \<Rightarrow> coldef" where
  "mkColumn f = \<lparr>headerName = f, field = f, filter_flag = True, sortable = True\<rparr>"

definition onFileUpload :: "libs \<Rightarrow> session \<Rightarrow> upload_file \<Rightarrow> session \<times> string list" where
  "onFileUpload lib st file =
     (let ext = fileExtension (file_name file) in
      if ext = ''csv'' then
        (case Papa_parse lib (content file) of
           None \<Rightarrow> (st, [])
         | Some results \<Rightarrow>
             (case meta_fields results of
                Some fs \<Rightarrow> (st\<lparr>rowData := data results, columnDefs := map mkColumn fs\<rparr>, [])
              | None \<Rightarrow> (st\<lparr>rowData := data results\<rparr>, [])))
      else if ext \<in> set [''xlsx'', ''xls''] then
        (case XLSX_sheet_to_json lib (content file) of
           Some jsonData \<Rightarrow>
             (st\<lparr>rowData := jsonData,
                 columnDefs := map mkColumn (map fst (case jsonData of r # rest \<Rightarrow> r | [] \<Rightarrow> []))\<rparr>,
              [])
         | None \<Rightarrow> (st, []))
      else (st, [''Unsupported format. Please upload CSV or Excel.'']))"

text \<open>The filter effect as a state update: it runs after every change of its inputs.\<close>

definition runFilterEffect :: "engine \<Rightarrow> session \<Rightarrow> session" where
  "runFilterEffect eng st =
     st\<lparr>filteredData :=
          filterEffect eng (rowData st) (filterText st) (dateRange st) (numericFilters st)\<rparr>"

section \<open>The embed token relay\<close>

text \<open>
  The \<open>GET\<close> handler of \<open>powerbi-token.ts\<close>. The server configuration is five environment
  variables, each a string or \<open>undefined\<close>. \<open>fetch\<close> is a parameter: for a request it
  rejects with an error message, or resolves to a response with its \<open>ok\<close> flag, its status
  text and what \<open>json()\<close> gives (an object, or an error when the body is not JSON or is
  \<open>null\<close>, so that reading the field throws). The handler's result is its response together
  with the requests it sent, in order. A response body is the object handed to
  \<open>JSON.stringify\<close>, without the fields that \<open>JSON.stringify\<close> drops. The call of
  \<open>console.error\<close> is not modelled.
\<close>

record relay_env =
  POWER_BI_CLIENT_ID :: "string option"
  POWER_BI_TENANT_ID :: "string option"
  POWER_BI_CLIENT_SECRET :: "string option"
  POWER_BI_WORKSPACE_ID :: "string option"
  POWER_BI_REPORT_ID :: "string option"

datatype req_body = FormBody "(string \<times> string) list" | JsonBody "(string \<times> jsval) list"

record request =
  url :: string
  http_method :: string
  req_headers :: "(string \<times> string) list"
  req_body :: req_body

datatype json_result = JsonThrows string | JsonObject "(string \<times> jsval) list"

datatype fetch_result = FetchRejects string | FetchResponse bool string json_result

record http_response =
  status :: nat
  headers :: "(string \<times> string) list"
  body :: "(string \<times> jsval) list"

definition stringifyBody :: "(string \<times> jsval) list \<Rightarrow> (string \<times> jsval) list" where
  "stringifyBody props =
     filter (\<lambda>p. case snd p of JUndefined \<Rightarrow> False | JProto f \<Rightarrow> False | _ \<Rightarrow> True) props"

definition incomplete :: http_response where
  "incomplete =
     \<lparr>status = 500, headers = [(''Content-Type'', ''application/json'')],
      body = stringifyBody [(''error'', JStr ''Power BI configuration is incomplete'')]\<rparr>"

definition failure :: "string \<Rightarrow> http_response" where
  "failure msg =
     \<lparr>status = 500, headers = [(''Content-Type'', ''application/json'')],
      body = stringifyBody
        [(''error'', JStr ''Failed to generate Power BI embed token''), (''details'', JStr msg)]\<rparr>"

definition tokenRequest :: "string \<Rightarrow> string \<Rightarrow> string \<Rightarrow> request" where
  "tokenRequest tenantId clientId clientSecret =
     \<lparr>url = ''https://login.microsoftonline.com/'' @ tenantId @ ''/oauth2/v2.0/token'',
      http_method = ''POST'',
      req_headers = [(''Content-Type'', ''application/x-www-form-urlencoded'')],
      req_body = FormBody
        [(''client_id'', clientId), (''client_secret'', clientSecret),
         (''grant_type'', ''client_credentials''),
         (''scope'', ''https://analysis.windows.net/powerbi/api/.default'')]\<rparr>"

definition embedRequest :: "engine \<Rightarrow> string \<Rightarrow> string \<Rightarrow> jsval \<Rightarrow> request" where
  "embedRequest eng workspaceId reportId token =
     \<lparr>url = ''https://api.powerbi.com/v1.0/myorg/groups/'' @ workspaceId @ ''/reports/'' @
              reportId @ ''/GenerateToken'',
      http_method = ''POST'',
      req_headers = [(''Authorization'', ''Bearer '' @ js_String eng token),
                     (''Content-Type'', ''application/json'')],
      req_body = JsonBody [(''accessLevel'', JStr ''View''), (''allowSaveAs'', JBool False)]\<rparr>"

definition embedStep ::
    "engine \<Rightarrow> (request \<Rightarrow> fetch_result) \<Rightarrow> request \<Rightarrow> string \<Rightarrow> string \<Rightarrow> jsval \<Rightarrow>
     http_response \<times> request list" where
  "embedStep eng fetch r1 workspaceId reportId token =
     (let r2 = embedRequest eng workspaceId reportId token in
      case fetch r2 of
        FetchRejects msg \<Rightarrow> (failure msg, [r1, r2])
      | FetchResponse ok statusText js \<Rightarrow>
          if \<not> ok then (failure (''Failed to generate embed token: '' @ statusText), [r1, r2])
          else
            (case js of
               JsonThrows msg \<Rightarrow> (failure msg, [r1, r2])
             | JsonObject embedData \<Rightarrow>
                 (\<lparr>status = 200,
                   headers = [(''Content-Type'', ''application/json''),
                              (''Cache-Control'', ''no-store'')],
                   body = stringifyBody
                     [(''embedToken'', js_get embedData ''token''),
                      (''embedUrl'',
                       JStr (''https://app.powerbi.com/reportEmbed?reportId='' @ reportId @
                             ''&groupId='' @ workspaceId)),
                      (''reportId'', JStr reportId),
                      (''expiry'', js_get embedData ''expiration'')]\<rparr>,
                  [r1, r2])))"

definition tokenStep ::
    "engine \<Rightarrow> (request \<Rightarrow> fetch_result) \<Rightarrow> string \<Rightarrow> string \<Rightarrow> string \<Rightarrow> string \<Rightarrow> string \<Rightarrow>
     http_response \<times> request list" where
  "tokenStep eng fetch clientId tenantId clientSecret workspaceId reportId =
     (let r1 = tokenRequest tenantId clientId clientSecret in
      case fetch r1 of
        FetchRejects msg \<Rightarrow> (failure msg, [r1])
      | FetchResponse ok statusText js \<Rightarrow>
          if \<not> ok then (failure (''Failed to get Azure AD token: '' @ statusText), [r1])
          else
            (case js of
               JsonThrows msg \<Rightarrow> (failure msg, [r1])
             | JsonObject tokenData \<Rightarrow>
                 embedStep eng fetch r1 workspaceId reportId (js_get tokenData ''access_token'')))"

text \<open>\<open>!x\<close> on a configuration value: \<open>undefined\<close> and the empty string are missing.\<close>

definition missing :: "string option \<Rightarrow> bool" where
  "missing x = (case x of None \<Rightarrow> True | Some s \<Rightarrow> s = [])"

definition GET :: "engine \<Rightarrow> (request \<Rightarrow> fetch_result) \<Rightarrow> relay_env \<Rightarrow> http_response \<times> request list" where
  "GET eng fetch env =
     (case (POWER_BI_CLIENT_ID env, POWER_BI_TENANT_ID env, POWER_BI_CLIENT_SECRET env,
            POWER_BI_WORKSPACE_ID env, POWER_BI_REPORT_ID env) of
        (Some clientId, Some tenantId, Some clientSecret, Some workspaceId, Some reportId) \<Rightarrow>
          if clientId = [] \<or> tenantId = [] \<or> clientSecret = [] \<or> workspaceId = [] \<or>
             reportId = []
          then (incomplete, [])
          else tokenStep eng fetch clientId tenantId clientSecret workspaceId reportId
      | _ \<Rightarrow> (incomplete, []))"

section \<open>A reference engine\<close>

text \<open>
  The results below hold for every engine. Where a result is shown on a concrete input,
  the engine is this one: \<open>Date.parse\<close> reads the date-only form \<open>YYYY-MM-DD\<close> of the
  ECMAScript date-time format as midnight UTC and recognises nothing else; a Number is
  printed in decimal (exact for integers, a fraction cut after twenty digits); a built-in
  function prints as V8 prints it.
\<close>

definition daysFromCivil :: "int \<Rightarrow> int \<Rightarrow> int \<Rightarrow> int" where
  "daysFromCivil y m d =
     (let y' = (if m \<le> 2 then y - 1 else y);
          era = y' div 400;
          yoe = y' - era * 400;
          doy = (153 * (if 2 < m then m - 3 else m + 9) + 2) div 5 + d - 1;
          doe = yoe * 365 + yoe div 4 - yoe div 100 + doy
      in era * 146097 + doe - 719468)"

definition daysInMonth :: "int \<Rightarrow> int \<Rightarrow> int" where
  "daysInMonth y m =
     (if m = 2 then (if y mod 4 = 0 \<and> (y mod 100 \<noteq> 0 \<or> y mod 400 = 0) then 29 else 28)
      else if m \<in> {4, 6, 9, 11} then 30 else 31)"

definition isoDateOnly :: "string \<Rightarrow> jsnum" where
  "isoDateOnly s =
     (if length s = 10 \<and> s ! 4 = CHR ''-'' \<and> s ! 7 = CHR ''-'' \<and>
         list_all isDigit (take 4 s @ take 2 (drop 5 s) @ drop 8 s)
      then
        (let y = int (digitsValue (take 4 s));
             m = int (digitsValue (take 2 (drop 5 s)));
             d = int (digitsValue (drop 8 s))
         in if 1 \<le> m \<and> m \<le> 12 \<and> 1 \<le> d \<and> d \<le> daysInMonth y m
            then Fin (of_int (daysFromCivil y m d * 86400000)) else NaN)
      else NaN)"

fun natDigits :: "nat \<Rightarrow> string" where
  "natDigits n =
     (if n < 10 then [char_of (48 + n)] else natDigits (n div 10) @ [char_of (48 + n mod 10)])"

fun fracDigits :: "nat \<Rightarrow> real \<Rightarrow> string" where
  "fracDigits 0 x = []"
| "fracDigits (Suc k) x =
     (if x = 0 then []
      else char_of (48 + nat \<lfloor>10 * x\<rfloor>) # fracDigits k (10 * x - of_int \<lfloor>10 * x\<rfloor>))"

definition decimalText :: "jsnum \<Rightarrow> string" where
  "decimalText n =
     (case n of
        NaN \<Rightarrow> ''NaN''
      | PosInf \<Rightarrow> ''Infinity''
      | NegInf \<Rightarrow> ''-Infinity''
      | Fin x \<Rightarrow>
          (if x < 0 then ''-'' else []) @ natDigits (nat \<lfloor>\<bar>x\<bar>\<rfloor>) @
          (if \<bar>x\<bar> = of_int \<lfloor>\<bar>x\<bar>\<rfloor> then []
           else ''.'' @ fracDigits 20 (\<bar>x\<bar> - of_int \<lfloor>\<bar>x\<bar>\<rfloor>)))"

definition nativeText :: "string \<Rightarrow> string" where
  "nativeText p =
     ''function '' @ (if p = ''constructor'' then ''Object'' else p) @ ''() { [native code] }''"

definition refEngine :: engine where
  "refEngine =
     \<lparr>Date_parse = isoDateOnly, Number_toString = decimalText, Function_toString = nativeText\<rparr>"

section \<open>Notions of the specification and sample data\<close>

text \<open>
  The specification's coercion of a cell to a number: the parsed value, and \<open>0\<close> where the
  cell does not parse.
\<close>

definition spec_coerce :: "jsval \<Rightarrow> jsnum" where
  "spec_coerce v = (case parseFloat v of NaN \<Rightarrow> Fin 0 | n \<Rightarrow> n)"

text \<open>The three records of the specification's scenarios A and B, as a CSV upload gives them.\<close>

definition salesRows :: "row list" where
  "salesRows =
     [[(''Sales'', JStr ''100'')], [(''Sales'', JStr ''200'')], [(''Sales'', JStr ''bad'')]]"

definition noRange :: date_range where
  "noRange = \<lparr>start = [], end' = []\<rparr>"

text \<open>
  Rows for the date filter: a date inside the range, one before it, a row with no date
  field, and a date the engine does not recognise.
\<close>

definition dateRows :: "row list" where
  "dateRows =
     [[(''Date'', JStr ''2024-02-15'')], [(''Date'', JStr ''2023-12-31'')],
      [(''Region'', JStr ''East'')], [(''Date'', JStr ''not a date'')]]"

text \<open>A session with data loaded and all three filters set, and parsers for the uploads.\<close>

definition sampleSession :: session where
  "sampleSession =
     \<lparr>rowData = [[(''Region'', JStr ''East''), (''Sales'', JStr ''100'')]],
      columnDefs = [mkColumn ''Region'', mkColumn ''Sales''],
      filteredData = [[(''Region'', JStr ''East''), (''Sales'', JStr ''100'')]],
      filterText = ''east'',
      selectedColumn = [],
      numericFilters = [(''Sales'', \<lparr>min' = Some ''50'', max' = None\<rparr>)],
      dateRange = \<lparr>start = ''2024-01-01'', end' = []\<rparr>,
      pbiEmbedConfig = None,
      showPbi = False\<rparr>"

definition sampleLibs :: libs where
  "sampleLibs =
     \<lparr>Papa_parse = (\<lambda>c. Some \<lparr>data = salesRows, meta_fields = Some [''Sales'']\<rparr>),
      XLSX_sheet_to_json = (\<lambda>c. None)\<rparr>"

text \<open>A server configuration without the report id, and a network that always fails.\<close>

definition sampleEnv :: relay_env where
  "sampleEnv =
     \<lparr>POWER_BI_CLIENT_ID = Some ''client'', POWER_BI_TENANT_ID = Some ''tenant'',
      POWER_BI_CLIENT_SECRET = Some ''secret'', POWER_BI_WORKSPACE_ID = Some ''workspace'',
      POWER_BI_REPORT_ID = None\<rparr>"

definition noNetwork :: "request \<Rightarrow> fetch_result" where
  "noNetwork r = FetchRejects ''fetch failed''"

text \<open>
  Rows for the chart: first-field values that are falsy (\<open>0\<close>, the empty string, \<open>null\<close>,
  \<open>NaN\<close>, a missing field) next to present ones, and rows whose first field holds a
  property name of \<open>Object.prototype\<close>.
\<close>

definition mixedRows :: "row list" where
  "mixedRows =
     [[(''Region'', JNum (Fin 0))], [(''Region'', JStr [])], [(''Region'', JStr ''East'')],
      [(''Region'', JNull)], [(''Region'', JNum NaN)], [(''Other'', JStr ''x'')],
      [(''Region'', JNum (Fin 7))], [(''Region'', JStr ''7'')]]"

definition protoRows :: "row list" where
  "protoRows =
     [[(''Word'', JStr ''constructor'')], [(''Word'', JStr ''east'')],
      [(''Word'', JStr ''constructor'')]]"

section \<open>Properties\<close>

lemmas parse_defs = parseFloat_str_def stripSign_def isWhiteSpace_def isDigit_def
  digitsValue_def exponentPart_def scale10_def Let_def

lemmas filter_defs = filterEffect_def textStage_def dateStage_def numericStage_def
  numericPass_def boundSet_def boundValue_def js_get_def js_ge_def noRange_def

subsection \<open>The filtered rows are a subsequence of the dataset\<close>

lemma subseq_numericStage: "subseq (numericStage xs e) xs"
  by (simp add: numericStage_def)

lemma subseq_foldl_numericStage: "subseq (foldl numericStage xs es) xs"
proof (induction es arbitrary: xs)
  case Nil
  show ?case by simp
next
  case (Cons e es)
  have "subseq (foldl numericStage (numericStage xs e) es) (numericStage xs e)"
    by (rule Cons.IH)
  then show ?case
    using subseq_numericStage [of xs e] by (auto intro: subseq_order.trans)
qed

lemma subseq_textStage: "subseq (textStage eng ft xs) xs"
  by (simp add: textStage_def)

lemma subseq_dateStage: "subseq (dateStage eng dr xs) xs"
  by (simp add: dateStage_def)

text \<open>
  Claim C4. For every dataset \<open>D\<close> and every filter configuration (text query, date range,
  numeric bounds), the rows the filter effect keeps are a subsequence of \<open>D\<close>: each kept
  row is a row of \<open>D\<close>, in the order of \<open>D\<close>, and none is repeated or made up.
\<close>

theorem filterEffect_subseq: "subseq (filterEffect eng D ft dr nf) D"
proof -
  have "subseq (filterEffect eng D ft dr nf) (dateStage eng dr (textStage eng ft D))"
    unfolding filterEffect_def by (rule subseq_foldl_numericStage)
  also have "subseq (dateStage eng dr (textStage eng ft D)) (textStage eng ft D)"
    by (rule subseq_dateStage)
  also have "subseq (textStage eng ft D) D"
    by (rule subseq_textStage)
  finally show ?thesis .
qed

subsection \<open>The filter as one predicate\<close>

lemma numericStage_filter:
  "numericStage xs e = filter (\<lambda>r. numericPass (snd e) (js_get r (fst e))) xs"
proof (cases "min' (snd e) \<noteq> Some [] \<or> max' (snd e) \<noteq> Some []")
  case True
  then show ?thesis by (simp add: numericStage_def)
next
  case False
  then have "numericPass (snd e) v" for v
    by (simp add: numericPass_def boundSet_def)
  with False show ?thesis by (simp add: numericStage_def)
qed

lemma foldl_numericStage_filter:
  "foldl numericStage xs es =
     filter (\<lambda>r. \<forall>e \<in> set es. numericPass (snd e) (js_get r (fst e))) xs"
proof (induction es arbitrary: xs)
  case Nil
  show ?case by simp
next
  case (Cons e es)
  have "foldl numericStage xs (e # es) = foldl numericStage (numericStage xs e) es"
    by simp
  also have "\<dots> = filter (\<lambda>r. \<forall>e \<in> set es. numericPass (snd e) (js_get r (fst e)))
      (numericStage xs e)"
    by (rule Cons.IH)
  also have "\<dots> = filter (\<lambda>r. \<forall>e \<in> set (e # es). numericPass (snd e) (js_get r (fst e))) xs"
    unfolding numericStage_filter by (auto intro: filter_cong)
  finally show ?case .
qed

lemma filterEffect_as_filter:
  "filterEffect eng D ft dr nf =
     filter (\<lambda>r. (ft = [] \<or> textMatch eng ft r) \<and>
                 ((start dr = [] \<and> end' dr = []) \<or> datePass eng dr r) \<and>
                 (\<forall>e \<in> set nf. numericPass (snd e) (js_get r (fst e)))) D"
proof -
  have t: "textStage eng ft D = filter (\<lambda>r. ft = [] \<or> textMatch eng ft r) D"
    by (simp add: textStage_def)
  have d: "dateStage eng dr xs =
      filter (\<lambda>r. (start dr = [] \<and> end' dr = []) \<or> datePass eng dr r) xs" for xs
    by (auto simp: dateStage_def)
  show ?thesis
    unfolding filterEffect_def foldl_numericStage_filter t d
    by (auto intro: filter_cong)
qed

text \<open>
  The three stages together keep exactly the rows that pass every active predicate: the
  text query (when it is not empty), the date range (when a start or an end is set) and
  each entry of the numeric filters.
\<close>

theorem filterEffect_filter:
  "filterEffect eng D ft dr nf =
     filter (\<lambda>r. (ft = [] \<or> textMatch eng ft r) \<and>
                 ((start dr = [] \<and> end' dr = []) \<or> datePass eng dr r) \<and>
                 (\<forall>e \<in> set nf. numericPass (snd e) (js_get r (fst e)))) D"
  by (rule filterEffect_as_filter)

theorem filterEffect_filter_witness:
  "filterEffect refEngine salesRows [] noRange [(''Sales'', \<lparr>min' = Some ''150'', max' = None\<rparr>)] =
     [[(''Sales'', JStr ''200'')]] \<and>
   list_all (\<lambda>e. numericPass (snd e) (js_get [(''Sales'', JStr ''200'')] (fst e)))
     [(''Sales'', \<lparr>min' = Some ''150'', max' = None\<rparr>)]"
proof -
  have ev: "filterEffect refEngine salesRows [] noRange
       [(''Sales'', \<lparr>min' = Some ''150'', max' = None\<rparr>)] = [[(''Sales'', JStr ''200'')]]"
    by (simp add: filter_defs salesRows_def parse_defs)
  have pass: "list_all (\<lambda>e. numericPass (snd e) (js_get [(''Sales'', JStr ''200'')] (fst e)))
     [(''Sales'', \<lparr>min' = Some ''150'', max' = None\<rparr>)]"
    by (simp add: numericPass_def boundSet_def boundValue_def js_get_def js_ge_def parse_defs)
  show ?thesis
    using filterEffect_filter [of refEngine salesRows "[]" noRange
        "[(''Sales'', \<lparr>min' = Some ''150'', max' = None\<rparr>)]"] ev pass
    by blast
qed

text \<open>With no filter set the effect returns the dataset itself.\<close>

theorem filterEffect_neutral: "filterEffect eng D [] noRange [] = D"
  by (simp add: filterEffect_def textStage_def dateStage_def noRange_def)

text \<open>Filtering the filtered rows again with the same configuration changes nothing.\<close>

theorem filterEffect_idempotent:
  "filterEffect eng (filterEffect eng D ft dr nf) ft dr nf = filterEffect eng D ft dr nf"
proof -
  have "filter P (filter P xs) = filter P xs" for P :: "row \<Rightarrow> bool" and xs
    by simp
  then show ?thesis
    by (simp only: filterEffect_as_filter)
qed

subsection \<open>The KPI summary\<close>

text \<open>
  Claim C1, as the code has it. Let \<open>fd\<close> be the filtered rows. When \<open>fd\<close> is empty the
  summary is the empty object: it has no \<open>totalRows\<close> and no \<open>avgSales\<close> (the KPI cards are
  hidden), rather than \<open>totalRows = 0\<close> and \<open>avgSales = 0\<close>. When \<open>fd\<close> is not empty,
  \<open>totalRows\<close> is the length of \<open>fd\<close>, it is positive, and \<open>avgSales\<close> is
  \<open>totalSales / totalRows\<close>; no division by zero happens.
\<close>

theorem kpis_of_filtered:
  assumes "fd = filterEffect eng D ft dr nf"
  shows "(fd = [] \<longrightarrow> kpis fd cols = None) \<and>
         (fd \<noteq> [] \<longrightarrow>
            (\<exists>k. kpis fd cols = Some k \<and> totalRows k = length fd \<and> 0 < totalRows k \<and>
                 avgSales k = js_div (totalSales k) (Fin (real (totalRows k)))))"
  by (simp add: kpis_def Let_def)

lemma isSalesName_Sales: "isSalesName ''Sales''"
  by code_simp

lemma not_isSalesName_Region: "\<not> isSalesName ''Region''"
  by code_simp

theorem kpis_of_filtered_witness:
  "[[(''Sales'', JStr ''200'')]] =
     filterEffect refEngine salesRows [] noRange [(''Sales'', \<lparr>min' = Some ''150'', max' = None\<rparr>)] \<and>
   kpis [[(''Sales'', JStr ''200'')]] [mkColumn ''Sales''] =
     Some \<lparr>totalRows = 1, totalSales = Fin 200, avgSales = Fin 200\<rparr>"
proof -
  have fd: "[[(''Sales'', JStr ''200'')]] =
      filterEffect refEngine salesRows [] noRange
        [(''Sales'', \<lparr>min' = Some ''150'', max' = None\<rparr>)]"
    by (simp add: filter_defs salesRows_def parse_defs)
  have "kpis [[(''Sales'', JStr ''200'')]] [mkColumn ''Sales''] =
      Some \<lparr>totalRows = 1, totalSales = Fin 200, avgSales = Fin 200\<rparr>"
    using kpis_of_filtered [OF fd, of "[mkColumn ''Sales'']"]
    by (simp add: kpis_def salesField_def mkColumn_def isSalesName_Sales js_get_def or_zero_def
        parse_defs)
  with fd show ?thesis by simp
qed

text \<open>
  The claim as stated fails: a dataset whose rows are all filtered out has a summary with
  no \<open>avgSales\<close> and no \<open>totalRows\<close> at all.
\<close>

theorem kpis_empty_counterexample:
  "filterEffect refEngine [[(''Sales'', JStr ''100'')]] [] noRange
     [(''Sales'', \<lparr>min' = Some ''150'', max' = None\<rparr>)] = [] \<and>
   map_option avgSales (kpis [] [mkColumn ''Sales'']) = None \<and>
   map_option totalRows (kpis [] [mkColumn ''Sales'']) = None"
  by (simp add: filter_defs parse_defs kpis_def)

text \<open>Sales field detection and the total.\<close>

lemma or_zero_spec_coerce: "or_zero (parseFloat v) = spec_coerce v"
  by (simp add: or_zero_def spec_coerce_def split: jsnum.splits)

lemma find_first_index:
  assumes "i < length xs" "P (xs ! i)" "\<forall>j<i. \<not> P (xs ! j)"
  shows "find P xs = Some (xs ! i)"
  using assms
proof (induction xs arbitrary: i)
  case Nil
  then show ?case by simp
next
  case (Cons x xs)
  show ?case
  proof (cases i)
    case 0
    with Cons.prems show ?thesis by simp
  next
    case (Suc n)
    with Cons.prems have "\<not> P x" by auto
    moreover have "find P xs = Some (xs ! n)"
      using Cons.prems Suc by (intro Cons.IH) auto
    ultimately show ?thesis using Suc by simp
  qed
qed

lemma salesField_first:
  assumes "i < length cols" "isSalesName (field (cols ! i))"
    "\<forall>j<i. \<not> isSalesName (field (cols ! j))"
  shows "salesField cols = Some (field (cols ! i))"
  using find_first_index [of i cols "\<lambda>col. isSalesName (field col)"] assms
  by (simp add: salesField_def)

lemma salesField_none:
  assumes "\<forall>c \<in> set cols. \<not> isSalesName (field c)"
  shows "salesField cols = None"
  using assms by (simp add: salesField_def find_None_iff)

lemma isSalesName_nonempty: "isSalesName f \<Longrightarrow> f \<noteq> []"
  by (auto simp: isSalesName_def includes_str_def toLowerCase_def)

lemma isSalesName_iff:
  "isSalesName f \<longleftrightarrow>
     (\<exists>ps ss. toLowerCase f = ps @ ''sales'' @ ss \<or> toLowerCase f = ps @ ''revenue'' @ ss)"
  by (auto simp: isSalesName_def includes_str_def sublist_def)

text \<open>
  Claim C5. For a non-empty filtered dataset \<open>fd\<close> and field descriptors \<open>cols\<close> the summary
  exists, and: when no descriptor's name contains \<open>sales\<close> or \<open>revenue\<close> (compared in lower
  case), \<open>totalSales\<close> is \<open>0\<close>; when descriptor \<open>i\<close> is the first whose name does,
  \<open>totalSales\<close> is the sum, over the rows of \<open>fd\<close> in order, of that field's value coerced
  to a number, a value that does not parse counting as \<open>0\<close>. The witness is the
  specification's scenario A: for the three records with \<open>Sales\<close> = 100, 200 and \<open>bad\<close> the
  summary is \<open>totalRows = 3\<close>, \<open>totalSales = 300\<close>, \<open>avgSales = 100\<close>.
\<close>

theorem kpis_totalSales:
  assumes "fd \<noteq> []"
  shows "\<exists>k. kpis fd cols = Some k \<and>
     ((\<forall>c \<in> set cols. \<not> isSalesName (field c)) \<longrightarrow> totalSales k = Fin 0) \<and>
     (\<forall>i < length cols.
        isSalesName (field (cols ! i)) \<and> (\<forall>j < i. \<not> isSalesName (field (cols ! j))) \<longrightarrow>
        totalSales k =
          foldl js_add (Fin 0) (map (\<lambda>r. spec_coerce (js_get r (field (cols ! i)))) fd))"
proof -
  obtain k where k: "kpis fd cols = Some k"
    using assms by (simp add: kpis_def Let_def)
  have none: "totalSales k = Fin 0" if "\<forall>c \<in> set cols. \<not> isSalesName (field c)"
    using k assms salesField_none [OF that] by (auto simp: kpis_def Let_def)
  have first: "totalSales k =
      foldl js_add (Fin 0) (map (\<lambda>r. spec_coerce (js_get r (field (cols ! i)))) fd)"
    if "i < length cols" "isSalesName (field (cols ! i))"
       "\<forall>j < i. \<not> isSalesName (field (cols ! j))" for i
  proof -
    have sf: "salesField cols = Some (field (cols ! i))"
      using that by (rule salesField_first)
    have ne: "field (cols ! i) \<noteq> []"
      using that(2) by (rule isSalesName_nonempty)
    show ?thesis
      using k assms sf ne
      by (auto simp: kpis_def Let_def foldl_map or_zero_spec_coerce)
  qed
  show ?thesis
    using k none first by auto
qed

theorem kpis_totalSales_witness:
  "salesRows \<noteq> [] \<and>
   kpis salesRows [mkColumn ''Region'', mkColumn ''Sales''] =
     Some \<lparr>totalRows = 3, totalSales = Fin 300, avgSales = Fin 100\<rparr>"
proof -
  have ne: "salesRows \<noteq> []"
    by (simp add: salesRows_def)
  have ev: "kpis salesRows [mkColumn ''Region'', mkColumn ''Sales''] =
      Some \<lparr>totalRows = 3, totalSales = Fin 300, avgSales = Fin 100\<rparr>"
    by (simp add: salesRows_def kpis_def salesField_def mkColumn_def isSalesName_Sales
        not_isSalesName_Region js_get_def or_zero_def parse_defs)
  show ?thesis
    using kpis_totalSales [OF ne, of "[mkColumn ''Region'', mkColumn ''Sales'']"] ne ev
    by blast
qed

subsection \<open>The numeric bounds\<close>

lemma js_le_NaN_right: "js_le x NaN = False"
  by (cases x) simp_all

lemma js_ge_NaN_left: "js_ge NaN y = False"
  by (simp add: js_ge_def js_le_NaN_right)

text \<open>
  Claim C2, as the code has it. For every entry \<open>(f, b)\<close> of the numeric filters, the rows
  that pass are those whose value \<open>parseFloat(row[f])\<close> satisfies: \<open>min\<close> is unset or the
  empty string or the value is \<open>>= parseFloat(min)\<close>, and \<open>max\<close> is unset or the empty
  string or the value is \<open><= parseFloat(max)\<close>. A value that does not parse is \<open>NaN\<close>, not
  \<open>0\<close>: it fails every comparison, so such a row is excluded as soon as one bound is set.
\<close>

theorem numericStage_bounds:
  "numericStage rows (f, b) =
     filter (\<lambda>r.
        (case min' b of None \<Rightarrow> True
         | Some m \<Rightarrow> m = [] \<or> js_ge (parseFloat (js_get r f)) (parseFloat_str m)) \<and>
        (case max' b of None \<Rightarrow> True
         | Some m \<Rightarrow> m = [] \<or> js_le (parseFloat (js_get r f)) (parseFloat_str m))) rows \<and>
   (\<forall>r. parseFloat (js_get r f) = NaN \<and> (boundSet (min' b) \<or> boundSet (max' b)) \<longrightarrow>
        r \<notin> set (numericStage rows (f, b)))"
proof (intro conjI allI impI)
  show "numericStage rows (f, b) =
     filter (\<lambda>r.
        (case min' b of None \<Rightarrow> True
         | Some m \<Rightarrow> m = [] \<or> js_ge (parseFloat (js_get r f)) (parseFloat_str m)) \<and>
        (case max' b of None \<Rightarrow> True
         | Some m \<Rightarrow> m = [] \<or> js_le (parseFloat (js_get r f)) (parseFloat_str m))) rows"
    by (cases "min' b"; cases "max' b")
       (auto simp: numericStage_def numericPass_def boundSet_def boundValue_def Let_def
             intro!: filter_cong)
next
  fix r
  assume a: "parseFloat (js_get r f) = NaN \<and> (boundSet (min' b) \<or> boundSet (max' b))"
  then have "\<not> numericPass b (js_get r f)"
    by (auto simp: numericPass_def Let_def js_ge_NaN_left)
  moreover have "min' b \<noteq> Some [] \<or> max' b \<noteq> Some []"
    using a by (auto simp: boundSet_def)
  ultimately show "r \<notin> set (numericStage rows (f, b))"
    by (simp add: numericStage_def)
qed

theorem numericStage_bounds_witness:
  "numericStage salesRows (''Sales'', \<lparr>min' = Some ''150'', max' = None\<rparr>) =
     [[(''Sales'', JStr ''200'')]] \<and>
   parseFloat (js_get [(''Sales'', JStr ''bad'')] ''Sales'') = NaN \<and>
   boundSet (min' \<lparr>min' = Some ''150'', max' = None\<rparr>) \<and>
   [(''Sales'', JStr ''bad'')] \<notin>
     set (numericStage salesRows (''Sales'', \<lparr>min' = Some ''150'', max' = None\<rparr>))"
proof -
  have ev: "numericStage salesRows (''Sales'', \<lparr>min' = Some ''150'', max' = None\<rparr>) =
     [[(''Sales'', JStr ''200'')]]"
    by (simp add: filter_defs salesRows_def parse_defs)
  have nan: "parseFloat (js_get [(''Sales'', JStr ''bad'')] ''Sales'') = NaN"
    by (simp add: js_get_def parse_defs)
  have bs: "boundSet (min' \<lparr>min' = Some ''150'', max' = None\<rparr>)"
    by (simp add: boundSet_def)
  show ?thesis
    using numericStage_bounds
      [of salesRows "''Sales''" "\<lparr>min' = Some ''150'', max' = None\<rparr>"] ev nan bs
    by blast
qed

text \<open>
  The claim as stated fails: with only \<open>max = 10\<close> set, a row whose \<open>Sales\<close> is \<open>bad\<close> would
  pass if the value counted as \<open>0\<close> (\<open>0 <= 10\<close>); the filter drops it.
\<close>

theorem numericStage_unparsable_counterexample:
  "js_le (spec_coerce (JStr ''bad'')) (parseFloat_str ''10'') \<and>
   filterEffect refEngine [[(''Sales'', JStr ''bad'')]] [] noRange
     [(''Sales'', \<lparr>min' = None, max' = Some ''10''\<rparr>)] = []"
  by (simp add: spec_coerce_def filter_defs parse_defs)

subsection \<open>The date range\<close>

lemma datePass_iff:
  "datePass eng dr r \<longleftrightarrow>
     \<not> truthy (dateStr r) \<or>
     ((start dr = [] \<or> js_ge (newDate eng (dateStr r)) (Date_parse eng (start dr))) \<and>
      (end' dr = [] \<or> js_le (newDate eng (dateStr r)) (Date_parse eng (end' dr))))"
  by (cases "start dr = []"; cases "end' dr = []") (simp_all add: datePass_def Let_def)

lemma isoDateOnly_start: "isoDateOnly ''2024-01-01'' = Fin 1704067200000"
  by code_simp

lemma isoDateOnly_inside: "isoDateOnly ''2024-02-15'' = Fin 1707955200000"
  by code_simp

lemma isoDateOnly_before: "isoDateOnly ''2023-12-31'' = Fin 1703980800000"
  by code_simp

lemma isoDateOnly_unknown: "isoDateOnly ''not a date'' = NaN"
  by code_simp

lemmas date_defs = dateStr_def js_or_def js_get_def protoNames_def refEngine_def
  isoDateOnly_start isoDateOnly_inside isoDateOnly_before isoDateOnly_unknown

text \<open>
  Claim C3, as the code has it. The date stage keeps a row iff its date value
  (\<open>row.Date || row.date\<close>) is falsy, or the date built from it is \<open>>=\<close> the start (when a
  start is set) and \<open><=\<close> the end (when an end is set). So a row with neither a \<open>Date\<close> nor a
  \<open>date\<close> field is never excluded. A row whose date the engine cannot parse has an invalid
  date, which fails both comparisons: it is excluded whenever a start or an end is set.
\<close>

theorem dateStage_rule:
  "dateStage eng dr rows =
     filter (\<lambda>r. \<not> truthy (dateStr r) \<or>
        ((start dr = [] \<or> js_ge (newDate eng (dateStr r)) (Date_parse eng (start dr))) \<and>
         (end' dr = [] \<or> js_le (newDate eng (dateStr r)) (Date_parse eng (end' dr))))) rows \<and>
   (\<forall>r \<in> set rows. map_of r ''Date'' = None \<and> map_of r ''date'' = None \<longrightarrow>
        r \<in> set (dateStage eng dr rows)) \<and>
   (\<forall>r. truthy (dateStr r) \<and> newDate eng (dateStr r) = NaN \<and>
        (start dr \<noteq> [] \<or> end' dr \<noteq> []) \<longrightarrow> r \<notin> set (dateStage eng dr rows))"
proof (intro conjI ballI allI impI)
  show "dateStage eng dr rows =
     filter (\<lambda>r. \<not> truthy (dateStr r) \<or>
        ((start dr = [] \<or> js_ge (newDate eng (dateStr r)) (Date_parse eng (start dr))) \<and>
         (end' dr = [] \<or> js_le (newDate eng (dateStr r)) (Date_parse eng (end' dr))))) rows"
  proof (cases "start dr \<noteq> [] \<or> end' dr \<noteq> []")
    case True
    have "datePass eng dr = (\<lambda>r. \<not> truthy (dateStr r) \<or>
        ((start dr = [] \<or> js_ge (newDate eng (dateStr r)) (Date_parse eng (start dr))) \<and>
         (end' dr = [] \<or> js_le (newDate eng (dateStr r)) (Date_parse eng (end' dr)))))"
      by (intro ext) (rule datePass_iff)
    with True show ?thesis
      by (simp add: dateStage_def)
  next
    case False
    then show ?thesis
      by (simp add: dateStage_def)
  qed
next
  fix r
  assume r: "r \<in> set rows" and "map_of r ''Date'' = None \<and> map_of r ''date'' = None"
  then have "dateStr r = JNull"
    by (simp add: dateStr_def js_get_def js_or_def protoNames_def)
  then have "datePass eng dr r"
    by (simp add: datePass_def)
  with r show "r \<in> set (dateStage eng dr rows)"
    by (simp add: dateStage_def)
next
  fix r
  assume a: "truthy (dateStr r) \<and> newDate eng (dateStr r) = NaN \<and>
        (start dr \<noteq> [] \<or> end' dr \<noteq> [])"
  then have "\<not> datePass eng dr r"
    by (auto simp: datePass_def Let_def js_ge_NaN_left)
  with a show "r \<notin> set (dateStage eng dr rows)"
    by (simp add: dateStage_def)
qed

theorem dateStage_rule_witness:
  "dateStage refEngine \<lparr>start = ''2024-01-01'', end' = []\<rparr> dateRows =
     [[(''Date'', JStr ''2024-02-15'')], [(''Region'', JStr ''East'')]] \<and>
   [(''Region'', JStr ''East'')] \<in> set dateRows \<and>
   map_of [(''Region'', JStr ''East'')] ''Date'' = None \<and>
   map_of [(''Region'', JStr ''East'')] ''date'' = None \<and>
   truthy (dateStr [(''Date'', JStr ''not a date'')]) \<and>
   newDate refEngine (dateStr [(''Date'', JStr ''not a date'')]) = NaN \<and>
   [(''Date'', JStr ''not a date'')] \<notin>
     set (dateStage refEngine \<lparr>start = ''2024-01-01'', end' = []\<rparr> dateRows)"
proof -
  have ev: "dateStage refEngine \<lparr>start = ''2024-01-01'', end' = []\<rparr> dateRows =
     [[(''Date'', JStr ''2024-02-15'')], [(''Region'', JStr ''East'')]]"
    by (simp add: dateStage_def datePass_def dateRows_def date_defs js_ge_def)
  have mem: "[(''Region'', JStr ''East'')] \<in> set dateRows"
    by (simp add: dateRows_def)
  have absent: "map_of [(''Region'', JStr ''East'')] ''Date'' = None"
     "map_of [(''Region'', JStr ''East'')] ''date'' = None"
    by simp_all
  have bad: "truthy (dateStr [(''Date'', JStr ''not a date'')])"
     "newDate refEngine (dateStr [(''Date'', JStr ''not a date'')]) = NaN"
    by (simp_all add: date_defs)
  have out: "[(''Date'', JStr ''not a date'')] \<notin>
     set (dateStage refEngine \<lparr>start = ''2024-01-01'', end' = []\<rparr> dateRows)"
    by (simp add: ev)
  show ?thesis
    using dateStage_rule [of refEngine "\<lparr>start = ''2024-01-01'', end' = []\<rparr>" dateRows]
      ev mem absent bad out
    by blast
qed

text \<open>
  The claim as stated fails: with a start date set, a row whose \<open>Date\<close> does not parse is
  dropped.
\<close>

theorem dateStage_unparsable_counterexample:
  "Date_parse refEngine ''not a date'' = NaN \<and>
   filterEffect refEngine [[(''Date'', JStr ''not a date'')]] []
     \<lparr>start = ''2024-01-01'', end' = []\<rparr> [] = []"
  by (simp add: filterEffect_def textStage_def dateStage_def datePass_def js_ge_def date_defs)

subsection \<open>Chart data\<close>

lemmas count_defs = countStep_def groupKey_def js_or_def js_get_def js_set_def protoNames_def

lemmas entries_defs = ownEntries_def isArrayIndex_def isDigit_def digitsValue_def

lemma natDigits_7: "natDigits 7 = ''7''"
  by code_simp

lemma decimalText_7: "decimalText (Fin 7) = ''7''"
  by (simp add: decimalText_def natDigits_7 del: natDigits.simps)

lemma chartData_mixedRows: "chartData refEngine mixedRows =
   [\<lparr>name = ''7'', count = JNum (Fin 2), fill = ''#3B82F6''\<rparr>,
    \<lparr>name = ''Unknown'', count = JNum (Fin 5), fill = ''#8B5CF6''\<rparr>,
    \<lparr>name = ''East'', count = JNum (Fin 1), fill = ''#06B6D4''\<rparr>]"
proof -
  have g: "groupByField mixedRows = ''Region''"
    by (simp add: groupByField_def mixedRows_def)
  have c: "foldl (countStep refEngine ''Region'') [] mixedRows =
      [(''Unknown'', JNum (Fin 5)), (''East'', JNum (Fin 1)), (''7'', JNum (Fin 2))]"
    by (simp add: mixedRows_def count_defs refEngine_def decimalText_7)
  have o: "ownEntries [(''Unknown'', JNum (Fin 5)), (''East'', JNum (Fin 1)), (''7'', JNum (Fin 2))] =
      [(''7'', JNum (Fin 2)), (''Unknown'', JNum (Fin 5)), (''East'', JNum (Fin 1))]"
    by (simp add: entries_defs)
  have n: "mixedRows \<noteq> []"
    by (simp add: mixedRows_def)
  show ?thesis
    by (simp add: chartData_def Let_def g c o n COLORS_def enumerate_eq_zip upt_rec)
qed

text \<open>The counter as a map: what a step does to a lookup, to the keys and to their order.\<close>

lemma map_of_update_entries:
  "map_of (map (\<lambda>p. if fst p = k then (k, v) else p) obj) k' =
     (if k' = k \<and> k \<in> fst ` set obj then Some v else map_of obj k')"
  by (induction obj) (force split: if_splits)+

lemma map_of_js_set:
  "map_of (js_set obj k v) k' =
     (if k' = k \<and> k \<noteq> ''__proto__'' then Some v else map_of obj k')"
proof (cases "k = ''__proto__''")
  case True
  then show ?thesis by (simp add: js_set_def)
next
  case False
  show ?thesis
  proof (cases "k \<in> fst ` set obj")
    case True
    with False show ?thesis
      by (simp add: js_set_def map_of_update_entries)
  next
    case False
    then have "map_of obj k = None"
      by (simp add: map_of_eq_None_iff)
    with False \<open>k \<noteq> ''__proto__''\<close> show ?thesis
      by (auto simp: js_set_def map_add_def split: option.splits)
  qed
qed

lemma keys_js_set:
  "map fst (js_set obj k v) =
     (if k = ''__proto__'' \<or> k \<in> fst ` set obj then map fst obj else map fst obj @ [k])"
proof -
  have "map fst (map (\<lambda>p. if fst p = k then (k, v) else p) obj) = map fst obj"
    by (induction obj) auto
  then show ?thesis
    by (simp add: js_set_def)
qed

lemma foldl_countStep_snoc:
  "foldl (countStep eng g) cs (rs @ [r]) = countStep eng g (foldl (countStep eng g) cs rs) r"
  by simp

lemma count_keys_distinct: "distinct (map fst (foldl (countStep eng g) [] rs))"
proof (induction rs rule: rev_induct)
  case Nil
  show ?case by simp
next
  case (snoc r rs)
  then show ?case
    by (auto simp: countStep_def Let_def keys_js_set)
qed

lemma count_keys_labels:
  "set (map fst (foldl (countStep eng g) [] rs)) \<subseteq> groupKey eng g ` set rs"
proof (induction rs rule: rev_induct)
  case Nil
  show ?case by simp
next
  case (snoc r rs)
  then show ?case
    by (auto simp: countStep_def Let_def keys_js_set)
qed

lemma count_lookup:
  assumes "K \<notin> set protoNames"
  shows "map_of (foldl (countStep eng g) [] rs) K =
     (if count_list (map (groupKey eng g) rs) K = 0 then None
      else Some (JNum (Fin (real (count_list (map (groupKey eng g) rs) K)))))"
proof (induction rs rule: rev_induct)
  case Nil
  show ?case by simp
next
  case (snoc r rs)
  let ?c = "foldl (countStep eng g) [] rs"
  have np: "K \<noteq> ''__proto__''"
    using assms by (auto simp: protoNames_def)
  show ?case
  proof (cases "groupKey eng g r = K")
    case True
    have "map_of (countStep eng g ?c r) K =
        Some (js_plus1 eng (js_or (js_get ?c K) (JNum (Fin 0))))"
      using True np by (simp add: countStep_def Let_def map_of_js_set)
    moreover have "js_plus1 eng (js_or (js_get ?c K) (JNum (Fin 0))) =
        JNum (Fin (real (count_list (map (groupKey eng g) rs) K) + 1))"
      using snoc.IH assms by (simp add: js_get_def js_or_def)
    ultimately show ?thesis
      using True by (simp add: add.commute)
  next
    case False
    then have "map_of (countStep eng g ?c r) K = map_of ?c K"
      by (simp add: countStep_def Let_def map_of_js_set)
    with False snoc.IH show ?thesis by simp
  qed
qed

lemma mset_ownEntries: "mset (ownEntries obj) = mset obj"
  by (simp add: ownEntries_def)

lemma set_ownEntries: "set (ownEntries obj) = set obj"
  using mset_ownEntries [of obj] by (metis set_mset_mset)

lemma distinct_keys_ownEntries:
  "distinct (map fst (ownEntries obj)) = distinct (map fst obj)"
proof -
  have "mset (map fst (ownEntries obj)) = mset (map fst obj)"
    by (simp add: mset_ownEntries)
  then show ?thesis
    by (rule mset_eq_imp_distinct_iff)
qed

lemma chartData_pairs:
  assumes "fd \<noteq> []"
  shows "map (\<lambda>e. (name e, count e)) (chartData eng fd) =
     ownEntries (foldl (countStep eng (groupByField fd)) [] fd)"
proof -
  have "map (\<lambda>e. (name e, count e))
      (map (\<lambda>(i, p). \<lparr>name = fst p, count = snd p, fill = COLORS ! (i mod length COLORS)\<rparr>)
         (enumerate 0 xs)) = xs" for xs :: "(string \<times> jsval) list"
  proof -
    have "map (\<lambda>e. (name e, count e))
      (map (\<lambda>(i, p). \<lparr>name = fst p, count = snd p, fill = COLORS ! (i mod length COLORS)\<rparr>)
         (enumerate 0 xs)) = map snd (enumerate 0 xs)"
      by (auto simp: comp_def split_beta)
    then show ?thesis by simp
  qed
  with assms show ?thesis
    by (simp add: chartData_def Let_def)
qed

lemma chartData_names:
  assumes "fd \<noteq> []"
  shows "map name (chartData eng fd) =
     map fst (ownEntries (foldl (countStep eng (groupByField fd)) [] fd))"
proof -
  have "map name (chartData eng fd) = map fst (map (\<lambda>e. (name e, count e)) (chartData eng fd))"
    by (simp add: comp_def)
  then show ?thesis
    using chartData_pairs [OF assms] by simp
qed

lemma chartData_counts:
  assumes "fd \<noteq> []"
  shows "map count (chartData eng fd) =
     map snd (ownEntries (foldl (countStep eng (groupByField fd)) [] fd))"
proof -
  have "map count (chartData eng fd) = map snd (map (\<lambda>e. (name e, count e)) (chartData eng fd))"
    by (simp add: comp_def)
  then show ?thesis
    using chartData_pairs [OF assms] by simp
qed

lemma count_list_map_filter:
  "count_list (map f xs) k = length (filter (\<lambda>x. f x = k) xs)"
  by (induction xs) auto

lemma unknown_not_proto: "''Unknown'' \<notin> set protoNames"
  by (simp add: protoNames_def)

text \<open>
  Claim C10. A row whose value in the grouping field is falsy (a missing field, the empty
  string, the number \<open>0\<close>, \<open>null\<close>, \<open>NaN\<close>, \<open>false\<close>) gets the label \<open>Unknown\<close>. The chart has
  an entry named \<open>Unknown\<close> whose count is the number of rows with that label, the entry
  names are pairwise different, and every entry name is the label of some row: a numeric
  \<open>0\<close> makes no category \<open>0\<close> of its own. In the witness the values \<open>0\<close>, the empty string,
  \<open>null\<close>, \<open>NaN\<close> and a missing field share the one \<open>Unknown\<close> entry with count 5.
\<close>

theorem chartData_falsy_unknown:
  assumes "r \<in> set fd" and "\<not> truthy (js_get r (groupByField fd))"
  shows "groupKey eng (groupByField fd) r = ''Unknown'' \<and>
     (\<exists>e \<in> set (chartData eng fd). name e = ''Unknown'' \<and>
        count e = JNum (Fin (real (length
          (filter (\<lambda>r'. groupKey eng (groupByField fd) r' = ''Unknown'') fd))))) \<and>
     distinct (map name (chartData eng fd)) \<and>
     name ` set (chartData eng fd) \<subseteq> groupKey eng (groupByField fd) ` set fd"
proof -
  let ?g = "groupByField fd"
  let ?c = "foldl (countStep eng ?g) [] fd"
  let ?n = "length (filter (\<lambda>r'. groupKey eng ?g r' = ''Unknown'') fd)"
  have ne: "fd \<noteq> []"
    using assms(1) by auto
  have key: "groupKey eng ?g r = ''Unknown''"
    using assms(2) by (simp add: groupKey_def js_or_def)
  have "r \<in> set (filter (\<lambda>r'. groupKey eng ?g r' = ''Unknown'') fd)"
    using assms(1) key by simp
  then have pos: "?n \<noteq> 0"
    by (metis length_0_conv empty_iff list.set(1))
  have "map_of ?c ''Unknown'' = Some (JNum (Fin (real ?n)))"
    using count_lookup [OF unknown_not_proto, of eng ?g fd] pos
    by (simp add: count_list_map_filter)
  then have "(''Unknown'', JNum (Fin (real ?n))) \<in> set ?c"
    by (rule map_of_SomeD)
  then have "(''Unknown'', JNum (Fin (real ?n))) \<in>
      set (map (\<lambda>e. (name e, count e)) (chartData eng fd))"
    by (simp add: chartData_pairs [OF ne] set_ownEntries)
  then have entry: "\<exists>e \<in> set (chartData eng fd). name e = ''Unknown'' \<and>
      count e = JNum (Fin (real ?n))"
    by auto
  have dist: "distinct (map name (chartData eng fd))"
    by (simp add: chartData_names [OF ne] distinct_keys_ownEntries count_keys_distinct)
  have "set (map fst (ownEntries ?c)) = set (map fst ?c)"
    by (simp add: set_ownEntries)
  then have "set (map name (chartData eng fd)) \<subseteq> groupKey eng ?g ` set fd"
    using count_keys_labels [of eng ?g fd]
    by (simp only: chartData_names [OF ne])
  then have sub: "name ` set (chartData eng fd) \<subseteq> groupKey eng ?g ` set fd"
    by simp
  from key entry dist sub show ?thesis
    by blast
qed

theorem chartData_falsy_unknown_witness:
  "[(''Region'', JNum (Fin 0))] \<in> set mixedRows \<and>
   \<not> truthy (js_get [(''Region'', JNum (Fin 0))] (groupByField mixedRows)) \<and>
   groupKey refEngine (groupByField mixedRows) [(''Region'', JNum (Fin 0))] = ''Unknown'' \<and>
   chartData refEngine mixedRows =
     [\<lparr>name = ''7'', count = JNum (Fin 2), fill = ''#3B82F6''\<rparr>,
      \<lparr>name = ''Unknown'', count = JNum (Fin 5), fill = ''#8B5CF6''\<rparr>,
      \<lparr>name = ''East'', count = JNum (Fin 1), fill = ''#06B6D4''\<rparr>]"
proof -
  have g: "groupByField mixedRows = ''Region''"
    by (simp add: groupByField_def mixedRows_def)
  have mem: "[(''Region'', JNum (Fin 0))] \<in> set mixedRows"
    by (simp add: mixedRows_def)
  have falsy: "\<not> truthy (js_get [(''Region'', JNum (Fin 0))] (groupByField mixedRows))"
    by (simp add: g js_get_def)
  have key: "groupKey refEngine (groupByField mixedRows) [(''Region'', JNum (Fin 0))] = ''Unknown''"
    using chartData_falsy_unknown [OF mem falsy, of refEngine] by simp
  from mem falsy key chartData_mixedRows show ?thesis
    by simp
qed

text \<open>
  Claim C6 says that the counts of the chart sum to the number of filtered rows. The
  counter is a plain object, and for a label that names a property of \<open>Object.prototype\<close>
  the read \<open>counts[key]\<close> finds the inherited value. For \<open>constructor\<close> that is a function:
  \<open>(counts[key] || 0) + 1\<close> is the function's source text followed by \<open>1\<close>, and the count of
  the entry is a string that grows by one character per row. For \<open>__proto__\<close> the write is
  dropped by the setter, and the row is in no entry at all.
\<close>

lemma countStep_constructor_1: "countStep eng ''Word'' [] [(''Word'', JStr ''constructor'')] =
   [(''constructor'', JStr (Function_toString eng ''constructor'' @ ''1''))]"
  by (simp add: count_defs) (simp_all add: Let_def)

lemma countStep_constructor_2: "countStep eng ''Word'' [(''constructor'', JStr (Function_toString eng ''constructor'' @ ''1''))]
     [(''Word'', JStr ''east'')] =
   [(''constructor'', JStr (Function_toString eng ''constructor'' @ ''1'')), (''east'', JNum (Fin 1))]"
  by (simp add: count_defs)

lemma countStep_constructor_3: "countStep eng ''Word''
     [(''constructor'', JStr (Function_toString eng ''constructor'' @ ''1'')), (''east'', JNum (Fin 1))]
     [(''Word'', JStr ''constructor'')] =
   [(''constructor'', JStr (Function_toString eng ''constructor'' @ ''11'')), (''east'', JNum (Fin 1))]"
  by (simp add: count_defs) (simp_all add: Let_def)

lemma countStep_proto: "countStep eng ''Word'' [] [(''Word'', JStr ''__proto__'')] = []"
  by (simp add: count_defs)

theorem chartData_prototype_keys:
  "chartData eng protoRows =
     [\<lparr>name = ''constructor'',
       count = JStr (Function_toString eng ''constructor'' @ ''11''), fill = ''#3B82F6''\<rparr>,
      \<lparr>name = ''east'', count = JNum (Fin 1), fill = ''#8B5CF6''\<rparr>] \<and>
   chartData eng [[(''Word'', JStr ''__proto__'')]] = []"
proof -
  have g: "groupByField protoRows = ''Word''"
    by (simp add: groupByField_def protoRows_def)
  have ne: "protoRows \<noteq> []"
    by (simp add: protoRows_def)
  have c: "foldl (countStep eng ''Word'') [] protoRows =
      [(''constructor'', JStr (Function_toString eng ''constructor'' @ ''11'')),
       (''east'', JNum (Fin 1))]"
    by (simp add: protoRows_def countStep_constructor_1 countStep_constructor_2
        countStep_constructor_3)
  have o: "ownEntries [(''constructor'', JStr (Function_toString eng ''constructor'' @ ''11'')),
       (''east'', JNum (Fin 1))] =
      [(''constructor'', JStr (Function_toString eng ''constructor'' @ ''11'')),
       (''east'', JNum (Fin 1))]"
    by (simp add: entries_defs)
  have first: "chartData eng protoRows =
     [\<lparr>name = ''constructor'',
       count = JStr (Function_toString eng ''constructor'' @ ''11''), fill = ''#3B82F6''\<rparr>,
      \<lparr>name = ''east'', count = JNum (Fin 1), fill = ''#8B5CF6''\<rparr>]"
    by (simp add: chartData_def Let_def g ne c o COLORS_def enumerate_eq_zip upt_rec)
  have second: "chartData eng [[(''Word'', JStr ''__proto__'')]] = []"
    by (simp add: chartData_def Let_def groupByField_def countStep_proto ownEntries_def)
  from first second show ?thesis
    by simp
qed

text \<open>
  When no label names a property of \<open>Object.prototype\<close>, every count is a number and the
  counts do sum to the number of rows.
\<close>

theorem chartData_counts_sum:
  assumes "\<forall>r \<in> set fd. groupKey eng (groupByField fd) r \<notin> set protoNames"
  shows "\<exists>ns. map count (chartData eng fd) = map (\<lambda>n. JNum (Fin (real n))) ns \<and>
     sum_list ns = length fd"
proof (cases "fd = []")
  case True
  then have "chartData eng fd = []"
    by (simp add: chartData_def)
  with True show ?thesis
    by simp
next
  case False
  let ?g = "groupByField fd"
  let ?c = "foldl (countStep eng ?g) [] fd"
  let ?labels = "map (groupKey eng ?g) fd"
  let ?keys = "map fst (ownEntries ?c)"
  have dist_c: "distinct (map fst ?c)"
    by (rule count_keys_distinct)
  have keys_sub: "set (map fst ?c) \<subseteq> set ?labels"
    using count_keys_labels [of eng ?g fd] by simp
  have val: "v = JNum (Fin (real (count_list ?labels k)))" if "(k, v) \<in> set ?c" for k v
  proof -
    have "k \<in> set (map fst ?c)"
      using that by force
    then have "k \<in> set ?labels"
      using keys_sub by blast
    then have safe: "k \<notin> set protoNames"
      using assms by auto
    have "map_of ?c k = Some v"
      using dist_c that by (rule map_of_is_SomeI)
    then show ?thesis
      using count_lookup [OF safe, of eng ?g fd] by (simp split: if_splits)
  qed
  have "map snd (ownEntries ?c) =
      map (\<lambda>p. JNum (Fin (real (count_list ?labels (fst p))))) (ownEntries ?c)"
  proof (rule map_cong [OF refl])
    fix p
    assume "p \<in> set (ownEntries ?c)"
    then have "(fst p, snd p) \<in> set ?c"
      by (simp add: set_ownEntries)
    then show "snd p = JNum (Fin (real (count_list ?labels (fst p))))"
      by (rule val)
  qed
  then have counts: "map count (chartData eng fd) =
      map (\<lambda>n. JNum (Fin (real n))) (map (count_list ?labels) ?keys)"
    by (simp add: chartData_counts [OF False] comp_def)
  have dist_k: "distinct ?keys"
    by (simp only: distinct_keys_ownEntries dist_c)
  have "set ?labels \<subseteq> set (map fst ?c)"
  proof
    fix k
    assume k: "k \<in> set ?labels"
    then have safe: "k \<notin> set protoNames"
      using assms by auto
    have "count_list ?labels k \<noteq> 0"
      using k by (simp add: count_list_0_iff del: set_map)
    then have "map_of ?c k \<noteq> None"
      using count_lookup [OF safe, of eng ?g fd] by simp
    then obtain v where "map_of ?c k = Some v"
      by blast
    then have "(k, v) \<in> set ?c"
      by (rule map_of_SomeD)
    then show "k \<in> set (map fst ?c)"
      by force
  qed
  with keys_sub have "set (map fst ?c) = set ?labels"
    by blast
  moreover have "set ?keys = set (map fst ?c)"
    by (simp add: set_ownEntries)
  ultimately have set_k: "set ?keys = set ?labels"
    by simp
  have "sum_list (map (count_list ?labels) ?keys) = sum (count_list ?labels) (set ?keys)"
    using dist_k by (rule sum_list_distinct_conv_sum_set)
  also have "\<dots> = sum (count_list ?labels) (set ?labels)"
    by (simp only: set_k)
  also have "\<dots> = length ?labels"
    by (rule sum_count_set) simp_all
  finally have "sum_list (map (count_list ?labels) ?keys) = length fd"
    by simp
  with counts show ?thesis
    by blast
qed

theorem chartData_counts_sum_witness:
  "list_all (\<lambda>r. groupKey refEngine (groupByField mixedRows) r \<notin> set protoNames) mixedRows \<and>
   map count (chartData refEngine mixedRows) = map (\<lambda>n. JNum (Fin (real n))) [2, 5, 1] \<and>
   sum_list [2, 5, 1 :: nat] = length mixedRows"
proof -
  have safe: "list_all (\<lambda>r. groupKey refEngine (groupByField mixedRows) r \<notin> set protoNames)
      mixedRows"
    by (simp add: groupByField_def mixedRows_def count_defs refEngine_def decimalText_7)
  then have "\<forall>r \<in> set mixedRows.
      groupKey refEngine (groupByField mixedRows) r \<notin> set protoNames"
    by (simp add: list_all_iff)
  note chartData_counts_sum [OF this]
  moreover have "map count (chartData refEngine mixedRows) =
      map (\<lambda>n. JNum (Fin (real n))) [2, 5, 1]"
    by (simp add: chartData_mixedRows)
  moreover have "sum_list [2, 5, 1 :: nat] = length mixedRows"
    by (simp add: mixedRows_def)
  ultimately show ?thesis
    using safe by blast
qed

subsection \<open>File upload\<close>

lemma ext_txt: "fileExtension ''notes.txt'' = ''txt''"
  by code_simp

lemma ext_csv: "fileExtension ''Q1.report.CSV'' = ''csv''"
  by code_simp

text \<open>
  What the handler takes for the extension: the text after the last dot of the name, and
  the whole name when it has no dot.
\<close>

lemma split_on_nonempty: "split_on d s \<noteq> []"
  by (induction s) (auto split: list.splits)

lemma split_on_dotless: "d \<notin> set s \<Longrightarrow> split_on d s = [s]"
  by (induction s) auto

lemma split_on_single: "split_on d s = [x] \<Longrightarrow> d \<notin> set s"
proof (induction s arbitrary: x)
  case Nil
  then show ?case by simp
next
  case (Cons c cs)
  show ?case
  proof (cases "c = d")
    case True
    with Cons.prems split_on_nonempty [of d cs] show ?thesis by simp
  next
    case False
    with Cons.prems split_on_nonempty [of d cs] obtain x' where "split_on d cs = [x']"
      by (auto split: list.splits)
    then have "d \<notin> set cs" by (rule Cons.IH)
    with False show ?thesis by simp
  qed
qed

lemma last_split_on_no_separator: "d \<notin> set (last (split_on d s))"
proof (induction s)
  case Nil
  show ?case by simp
next
  case (Cons c cs)
  show ?case
  proof (cases "c = d")
    case True
    with Cons.IH split_on_nonempty [of d cs] show ?thesis by simp
  next
    case False
    obtain x xs where sp: "split_on d cs = x # xs"
      using split_on_nonempty [of d cs] by (cases "split_on d cs") auto
    with Cons.IH False show ?thesis by (cases xs) auto
  qed
qed

lemma last_split_on_append:
  "d \<notin> set ext \<Longrightarrow> last (split_on d (pre @ d # ext)) = ext"
proof (induction pre)
  case Nil
  then show ?case by (simp add: split_on_dotless)
next
  case (Cons c pre)
  show ?case
  proof (cases "c = d")
    case True
    with Cons split_on_nonempty [of d "pre @ d # ext"] show ?thesis by simp
  next
    case False
    obtain x xs where sp: "split_on d (pre @ d # ext) = x # xs"
      using split_on_nonempty [of d "pre @ d # ext"]
      by (cases "split_on d (pre @ d # ext)") auto
    have "xs \<noteq> []"
      using split_on_single [of d "pre @ d # ext" x] sp by auto
    with sp False Cons show ?thesis by simp
  qed
qed

lemma fileExtension_dotless:
  "CHR ''.'' \<notin> set n \<Longrightarrow> fileExtension n = toLowerCase n"
  by (simp add: fileExtension_def split_on_dotless)

lemma fileExtension_dotted:
  "CHR ''.'' \<notin> set ext \<Longrightarrow> fileExtension (pre @ CHR ''.'' # ext) = toLowerCase ext"
  by (simp add: fileExtension_def last_split_on_append)

text \<open>
  A name whose last dot-separated part is none of \<open>csv\<close>, \<open>xlsx\<close>, \<open>xls\<close> gets the alert, and
  the session state is returned as it was. For a name with a dot that part is its
  extension, so the handler rejects every dotted name with another extension (the
  specification's scenario D, \<open>notes.txt\<close>).
\<close>

lemma onFileUpload_unsupported:
  assumes "fileExtension (file_name file) \<notin> {''csv'', ''xlsx'', ''xls''}"
  shows "onFileUpload lib st file = (st, [''Unsupported format. Please upload CSV or Excel.''])"
  using assms by (simp add: onFileUpload_def Let_def)

lemma onFileUpload_unsupported_dotted:
  assumes "file_name file = pre @ CHR ''.'' # ext" and "CHR ''.'' \<notin> set ext"
    and "toLowerCase ext \<notin> {''csv'', ''xlsx'', ''xls''}"
  shows "onFileUpload lib st file = (st, [''Unsupported format. Please upload CSV or Excel.''])"
  using assms by (simp add: onFileUpload_def Let_def fileExtension_dotted)

lemma onFileUpload_txt:
  "onFileUpload sampleLibs sampleSession \<lparr>file_name = ''notes.txt'', content = ''a,b''\<rparr> =
     (sampleSession, [''Unsupported format. Please upload CSV or Excel.''])"
  using onFileUpload_unsupported
    [of "\<lparr>file_name = ''notes.txt'', content = ''a,b''\<rparr>" sampleLibs sampleSession]
  by (simp add: ext_txt)

text \<open>
  Claim C7 says that every upload whose file extension is not \<open>csv\<close>, \<open>xlsx\<close> or \<open>xls\<close> gets
  an error and changes no state. The handler misses the name without a dot: a file named
  \<open>csv\<close> has no extension (the file input lists the accepted ones as \<open>.csv\<close>, \<open>.xlsx\<close>,
  \<open>.xls\<close>), yet \<open>split(".").pop()\<close> yields \<open>csv\<close> and the file is parsed as CSV. No alert is
  shown, whatever the parser and the state, and with a parser that reads rows the dataset
  is replaced.
\<close>

lemma ext_dotless_csv: "fileExtension ''csv'' = ''csv''"
  by code_simp

theorem onFileUpload_dotless_name:
  "CHR ''.'' \<notin> set ''csv'' \<and>
   snd (onFileUpload lib st \<lparr>file_name = ''csv'', content = c\<rparr>) = [] \<and>
   onFileUpload sampleLibs sampleSession \<lparr>file_name = ''csv'', content = ''Sales''\<rparr> =
     (sampleSession\<lparr>rowData := salesRows, columnDefs := [mkColumn ''Sales'']\<rparr>, []) \<and>
   rowData (sampleSession\<lparr>rowData := salesRows, columnDefs := [mkColumn ''Sales'']\<rparr>) \<noteq>
     rowData sampleSession"
proof -
  have a: "CHR ''.'' \<notin> set ''csv''" by simp
  have b: "snd (onFileUpload lib st \<lparr>file_name = ''csv'', content = c\<rparr>) = []"
    by (simp add: onFileUpload_def ext_dotless_csv split: option.splits)
  have u: "onFileUpload sampleLibs sampleSession \<lparr>file_name = ''csv'', content = ''Sales''\<rparr> =
     (sampleSession\<lparr>rowData := salesRows, columnDefs := [mkColumn ''Sales'']\<rparr>, [])"
    by (simp add: onFileUpload_def ext_dotless_csv sampleLibs_def)
  have d: "rowData (sampleSession\<lparr>rowData := salesRows, columnDefs := [mkColumn ''Sales'']\<rparr>) \<noteq>
     rowData sampleSession"
    by (simp add: sampleSession_def salesRows_def)
  from a b u d show ?thesis by blast
qed


text \<open>
  Claim C8. No upload changes \<open>filterText\<close>, \<open>dateRange\<close> or \<open>numericFilters\<close>, and the filter
  effect that follows runs with the old filters on the new rows. A successful upload (a CSV
  whose header was read, or a spreadsheet that was read) sets \<open>rowData\<close> to the parsed rows
  and \<open>columnDefs\<close> to the descriptors of the parsed fields, whatever they were before.
\<close>

theorem onFileUpload_keeps_filters:
  assumes "onFileUpload lib st file = (st', alerts)"
  shows "filterText st' = filterText st \<and> dateRange st' = dateRange st \<and>
     numericFilters st' = numericFilters st \<and>
     filteredData (runFilterEffect eng st') =
       filterEffect eng (rowData st') (filterText st) (dateRange st) (numericFilters st) \<and>
     (fileExtension (file_name file) = ''csv'' \<longrightarrow>
        (\<forall>res fs. Papa_parse lib (content file) = Some res \<and> meta_fields res = Some fs \<longrightarrow>
           rowData st' = data res \<and> columnDefs st' = map mkColumn fs)) \<and>
     (fileExtension (file_name file) \<in> {''xlsx'', ''xls''} \<longrightarrow>
        (\<forall>js. XLSX_sheet_to_json lib (content file) = Some js \<longrightarrow>
           rowData st' = js \<and>
           columnDefs st' = map mkColumn (map fst (case js of [] \<Rightarrow> [] | r # rest \<Rightarrow> r))))"
  using assms
  by (auto simp: onFileUpload_def Let_def runFilterEffect_def split: if_splits option.splits)

theorem onFileUpload_keeps_filters_witness:
  "onFileUpload sampleLibs sampleSession \<lparr>file_name = ''Q1.report.CSV'', content = ''Sales''\<rparr> =
     (sampleSession\<lparr>rowData := salesRows, columnDefs := [mkColumn ''Sales'']\<rparr>, []) \<and>
   fileExtension ''Q1.report.CSV'' = ''csv'' \<and>
   filterText (sampleSession\<lparr>rowData := salesRows, columnDefs := [mkColumn ''Sales'']\<rparr>) = ''east'' \<and>
   dateRange (sampleSession\<lparr>rowData := salesRows, columnDefs := [mkColumn ''Sales'']\<rparr>) =
     \<lparr>start = ''2024-01-01'', end' = []\<rparr> \<and>
   numericFilters (sampleSession\<lparr>rowData := salesRows, columnDefs := [mkColumn ''Sales'']\<rparr>) =
     [(''Sales'', \<lparr>min' = Some ''50'', max' = None\<rparr>)]"
proof -
  have up: "onFileUpload sampleLibs sampleSession
       \<lparr>file_name = ''Q1.report.CSV'', content = ''Sales''\<rparr> =
     (sampleSession\<lparr>rowData := salesRows, columnDefs := [mkColumn ''Sales'']\<rparr>, [])"
    by (simp add: onFileUpload_def ext_csv sampleLibs_def)
  show ?thesis
    using onFileUpload_keeps_filters [OF up, of refEngine] up
    by (simp add: ext_csv sampleSession_def)
qed

subsection \<open>The token relay\<close>

text \<open>
  Claim C9. When one of the five configuration values is missing, the handler answers with
  status 500 and a JSON body whose \<open>error\<close> field is a non-empty message, and sends no
  request.
\<close>

theorem GET_incomplete:
  assumes "missing (POWER_BI_CLIENT_ID env) \<or> missing (POWER_BI_TENANT_ID env) \<or>
     missing (POWER_BI_CLIENT_SECRET env) \<or> missing (POWER_BI_WORKSPACE_ID env) \<or>
     missing (POWER_BI_REPORT_ID env)"
  shows "GET eng fetch env =
     (\<lparr>status = 500, headers = [(''Content-Type'', ''application/json'')],
       body = [(''error'', JStr ''Power BI configuration is incomplete'')]\<rparr>, [])"
  using assms
  by (auto simp: GET_def missing_def incomplete_def stringifyBody_def split: option.splits)

theorem GET_incomplete_witness:
  "missing (POWER_BI_REPORT_ID sampleEnv) \<and>
   GET refEngine noNetwork sampleEnv =
     (\<lparr>status = 500, headers = [(''Content-Type'', ''application/json'')],
       body = [(''error'', JStr ''Power BI configuration is incomplete'')]\<rparr>, [])"
proof -
  have m: "missing (POWER_BI_REPORT_ID sampleEnv)"
    by (simp add: missing_def sampleEnv_def)
  then show ?thesis
    using GET_incomplete [of sampleEnv refEngine noNetwork] by simp
qed

text \<open>With the configuration complete the handler does call out.\<close>

lemma GET_complete_calls:
  assumes "\<not> missing (POWER_BI_CLIENT_ID env)" "\<not> missing (POWER_BI_TENANT_ID env)"
     "\<not> missing (POWER_BI_CLIENT_SECRET env)" "\<not> missing (POWER_BI_WORKSPACE_ID env)"
     "\<not> missing (POWER_BI_REPORT_ID env)"
  shows "snd (GET eng fetch env) \<noteq> []"
  using assms
  by (auto simp: GET_def missing_def tokenStep_def embedStep_def Let_def
      split: option.splits fetch_result.splits json_result.splits)

end
